theory Spec2Isabelle
  imports Complex_Main "HOL-Library.Product_Lexorder"
begin

section \<open>Data model\<close>

text \<open>
  The task-management API keeps two tables, \<open>users\<close> and \<open>tasks\<close>, behind the
  Sequelize models \<open>User\<close> and \<open>Task\<close>. The controllers are embedded as functions
  over an explicit store; a controller that writes returns the new store next to its
  response. Timestamps and dates are integers (milliseconds), identifiers are integers.
\<close>

datatype priority = Low | Medium | High

text \<open>
  Modelled from the spec: the \<open>Task\<close> model (models/Task.js is not among the sources).
  Columns as the data model lists them; \<open>description\<close>, \<open>dueDate\<close> and \<open>tags\<close> are
  optional, so they are nullable (\<open>None\<close> is SQL NULL).
\<close>

record task =
  t_id :: int
  t_title :: string
  t_description :: "string option"
  t_completed :: bool
  t_dueDate :: "int option"
  t_priority :: priority
  t_tags :: "string list option"
  t_userId :: int
  t_createdAt :: int
  t_updatedAt :: int

text \<open>
  Modelled from the spec: the \<open>User\<close> model (models/User.js is not among the sources).
  \<open>u_password\<close> holds the stored hash, never the raw password.
\<close>

record user =
  u_id :: int
  u_name :: string
  u_email :: string
  u_password :: string
  u_active :: bool
  u_lastAccess :: "int option"
  u_createdAt :: int
  u_updatedAt :: int

record store =
  users :: "user list"
  tasks :: "task list"
  next_user_id :: int

text \<open>
  Every JSON answer of the API has the shape
  \<open>{success, message?, data?}\<close> with an HTTP status; \<open>None\<close> is an absent key.
  The free-text \<open>error\<close> detail of the 500 answers is not part of the model.
\<close>

record 'a response =
  status :: nat
  success :: bool
  message :: "string option"
  data :: "'a option"

section \<open>The Task model's queries\<close>

text \<open>\<open>Task.findOne({ where: { id, userId } })\<close>: the first row with both columns equal.\<close>

definition Task_findOne :: "store \<Rightarrow> int \<Rightarrow> int \<Rightarrow> task option" where
  "Task_findOne s i userId = find (\<lambda>t. t_id t = i \<and> t_userId t = userId) (tasks s)"

text \<open>
  The body of \<open>PUT /api/tasks/:id\<close> after the validation chain: a key that is absent
  from the JSON body is \<open>undefined\<close> in the controller's destructuring, here \<open>None\<close>.
  The chain leaves \<open>tags\<close> unchecked, so a supplied \<open>tags\<close> may be \<open>null\<close>.
\<close>

record task_body =
  b_title :: "string option"
  b_description :: "string option"
  b_completed :: "bool option"
  b_dueDate :: "int option"
  b_priority :: "priority option"
  b_tags :: "string list option option"

text \<open>
  \<open>task.update(values)\<close>: Sequelize drops the keys whose value is \<open>undefined\<close>, sets
  the others on the instance and saves the row with the instance's primary key. It
  stamps \<open>updatedAt\<close> when at least one key is left; with none it writes nothing.
\<close>

definition set_values :: "task_body \<Rightarrow> int \<Rightarrow> task \<Rightarrow> task" where
  "set_values b now t =
     t\<lparr> t_title := (case b_title b of None \<Rightarrow> t_title t | Some v \<Rightarrow> v),
        t_description := (case b_description b of None \<Rightarrow> t_description t | Some v \<Rightarrow> Some v),
        t_completed := (case b_completed b of None \<Rightarrow> t_completed t | Some v \<Rightarrow> v),
        t_dueDate := (case b_dueDate b of None \<Rightarrow> t_dueDate t | Some v \<Rightarrow> Some v),
        t_priority := (case b_priority b of None \<Rightarrow> t_priority t | Some v \<Rightarrow> v),
        t_tags := (case b_tags b of None \<Rightarrow> t_tags t | Some v \<Rightarrow> v),
        t_updatedAt :=
          (if b_title b = None \<and> b_description b = None \<and> b_completed b = None
              \<and> b_dueDate b = None \<and> b_priority b = None \<and> b_tags b = None
           then t_updatedAt t else now) \<rparr>"

definition save_task :: "task \<Rightarrow> store \<Rightarrow> store" where
  "save_task t s = s\<lparr> tasks := map (\<lambda>r. if t_id r = t_id t then t else r) (tasks s) \<rparr>"

text \<open>\<open>task.destroy()\<close>: deletes the row with the instance's primary key.\<close>

definition destroy_task :: "task \<Rightarrow> store \<Rightarrow> store" where
  "destroy_task t s = s\<lparr> tasks := filter (\<lambda>r. t_id r \<noteq> t_id t) (tasks s) \<rparr>"

section \<open>Task controllers\<close>

definition task_not_found :: "'a response" where
  "task_not_found = \<lparr> status = 404, success = False, message = Some ''Task not found'', data = None \<rparr>"

text \<open>
  \<open>getTask\<close>: \<open>userId\<close> is \<open>req.user.id\<close>, \<open>i\<close> is \<open>req.params.id\<close>, an identifier
  within the range of the table's integer key. (For a number outside that range the
  query fails and the \<open>catch\<close> answers 500; such a number is no task's identifier.)
\<close>

definition getTask :: "store \<Rightarrow> int \<Rightarrow> int \<Rightarrow> task response" where
  "getTask s userId i =
     (case Task_findOne s i userId of
        None \<Rightarrow> task_not_found
      | Some t \<Rightarrow> \<lparr> status = 200, success = True, message = None, data = Some t \<rparr>)"

definition updateTask :: "int \<Rightarrow> store \<Rightarrow> int \<Rightarrow> int \<Rightarrow> task_body \<Rightarrow> task response \<times> store" where
  "updateTask now s userId i b =
     (case Task_findOne s i userId of
        None \<Rightarrow> (task_not_found, s)
      | Some t \<Rightarrow>
          (let t' = set_values b now t in
           (\<lparr> status = 200, success = True, message = Some ''Task updated successfully'',
              data = Some t' \<rparr>,
            save_task t' s)))"

definition deleteTask :: "store \<Rightarrow> int \<Rightarrow> int \<Rightarrow> unit response \<times> store" where
  "deleteTask s userId i =
     (case Task_findOne s i userId of
        None \<Rightarrow> (task_not_found, s)
      | Some t \<Rightarrow>
          (\<lparr> status = 200, success = True, message = Some ''Task deleted successfully'',
             data = None \<rparr>,
           destroy_task t s))"

section \<open>Statistics controller\<close>

text \<open>
  \<open>getStatistics\<close>: three \<open>Task.count\<close> queries and one \<open>GROUP BY priority\<close>
  query, all scoped to the caller. The grouped query returns one row per priority that
  occurs among the caller's tasks; the controller folds the rows into an object.
\<close>

definition Task_count :: "store \<Rightarrow> (task \<Rightarrow> bool) \<Rightarrow> nat" where
  "Task_count s wh = length (filter wh (tasks s))"

definition Task_groupByPriority :: "store \<Rightarrow> int \<Rightarrow> (priority \<times> nat) list" where
  "Task_groupByPriority s userId =
     (let rows = filter (\<lambda>t. t_userId t = userId) (tasks s)
      in map (\<lambda>p. (p, length (filter (\<lambda>t. t_priority t = p) rows)))
           (remdups (map t_priority rows)))"

record statistics =
  st_total :: nat
  st_completed :: nat
  st_pending :: nat
  st_byPriority :: "priority \<rightharpoonup> nat"

definition getStatistics :: "store \<Rightarrow> int \<Rightarrow> statistics response" where
  "getStatistics s userId =
     (let total = Task_count s (\<lambda>t. t_userId t = userId);
          completed = Task_count s (\<lambda>t. t_userId t = userId \<and> t_completed t = True);
          pending = Task_count s (\<lambda>t. t_userId t = userId \<and> t_completed t = False);
          byPriority = Task_groupByPriority s userId
      in \<lparr> status = 200, success = True, message = None,
           data = Some \<lparr> st_total = total, st_completed = completed, st_pending = pending,
                          st_byPriority = fold (\<lambda>item acc. acc(fst item \<mapsto> snd item))
                                            byPriority Map.empty \<rparr> \<rparr>)"

text \<open>The caller of \<open>statistics\<close> reads a missing priority key as zero.\<close>

definition count_of :: "(priority \<rightharpoonup> nat) \<Rightarrow> priority \<Rightarrow> nat" where
  "count_of m p = (case m p of None \<Rightarrow> 0 | Some c \<Rightarrow> c)"

section \<open>JavaScript numbers in the pagination arithmetic\<close>

text \<open>
  \<open>req.query.page\<close> and \<open>req.query.limit\<close> reach \<open>getTasks\<close> as the decimal strings
  the route's \<open>isInt\<close> check accepted (a natural number here), or as the defaults
  \<open>1\<close> and \<open>10\<close>. \<open>(page - 1) * limit\<close> converts them to IEEE doubles, so every
  intermediate result is the nearest double (ties to even) of the exact one, and
  \<open>parseInt(offset)\<close> reads the decimal text of that double. A non-negative double
  with an integral value is modelled by its value; \<open>2 ^ 1024\<close> and above is
  \<open>Infinity\<close>.
\<close>

fun bit_length :: "nat \<Rightarrow> nat" where
  "bit_length n = (if n = 0 then 0 else Suc (bit_length (n div 2)))"

declare bit_length.simps [simp del]

text \<open>Round a natural number to the nearest double: 53 significant bits, ties to even.\<close>

definition js_round :: "nat \<Rightarrow> nat" where
  "js_round n =
     (if n \<le> 2 ^ 53 then n
      else let e = bit_length n - 53; q = n div 2 ^ e; r = n mod 2 ^ e; h = 2 ^ (e - 1)
           in if r < h then q * 2 ^ e
              else if h < r then (q + 1) * 2 ^ e
              else if even q then q * 2 ^ e
              else (q + 1) * 2 ^ e)"

fun dec_length :: "nat \<Rightarrow> nat" where
  "dec_length n = (if n < 10 then 1 else Suc (dec_length (n div 10)))"

declare dec_length.simps [simp del]

text \<open>
  \<open>Number::toString\<close> prints a double of \<open>10 ^ 21\<close> or more in exponent notation,
  \<open>d.ddde+n\<close>, with the fewest digits \<open>k\<close> that read back as the same double.
  \<open>repr_candidates x k\<close> are the \<open>k\<close>-digit numbers \<open>s\<close> with that property;
  \<open>parseInt\<close> stops at the first character that is not a digit, so it reads the
  leading digit of \<open>s\<close> only.
\<close>

definition repr_candidates :: "nat \<Rightarrow> nat \<Rightarrow> nat list" where
  "repr_candidates x k =
     concat (map (\<lambda>n. filter (\<lambda>s. 10 ^ (k - 1) \<le> s \<and> s < 10 ^ k \<and> js_round (s * 10 ^ (n - k)) = x)
                          [x div 10 ^ (n - k), Suc (x div 10 ^ (n - k))])
                 [dec_length x, Suc (dec_length x)])"

definition leading_digit :: "nat \<Rightarrow> nat" where
  "leading_digit x =
     (case find (\<lambda>k. repr_candidates x k \<noteq> []) [1..<18] of
        Some k \<Rightarrow> hd (repr_candidates x k) div 10 ^ (k - 1)
      | None \<Rightarrow> x div 10 ^ (dec_length x - 1))"

text \<open>\<open>parseInt(x)\<close> for a finite double \<open>x\<close> with a non-negative integral value.\<close>

definition js_parseInt :: "nat \<Rightarrow> nat" where
  "js_parseInt x = (if x < 10 ^ 21 then x else leading_digit x)"

text \<open>
  \<open>parseInt((page - 1) * limit)\<close>. \<open>None\<close> is \<open>NaN\<close>: the product is \<open>Infinity\<close>,
  whose text has no leading digit.
\<close>

definition js_offset :: "nat \<Rightarrow> nat \<Rightarrow> nat option" where
  "js_offset page limit =
     (let x1 = js_round page;
          x2 = js_round (x1 - 1);
          x3 = js_round (x2 * js_round limit)
      in if 2 ^ 1024 \<le> x1 \<or> 2 ^ 1024 \<le> x3 then None else Some (js_parseInt x3))"

text \<open>
  \<open>Math.ceil(count / limit)\<close>. \<open>count\<close> is a row count and \<open>limit\<close> is at most
  100, so the double quotient has the ceiling of the exact quotient.
\<close>

definition js_ceil_div :: "nat \<Rightarrow> nat \<Rightarrow> nat" where
  "js_ceil_div count limit = nat \<lceil>real count / real limit\<rceil>"

section \<open>Listing\<close>

text \<open>
  The query string of \<open>GET /api/tasks\<close> after the validation chain. \<open>completed\<close>
  stays the text the client sent (\<open>isBoolean\<close> accepts \<open>true\<close>, \<open>false\<close>, \<open>1\<close> and
  \<open>0\<close>); \<open>priority\<close> is one of the three enum values; \<open>page\<close> and \<open>limit\<close> are the
  values of the decimal strings that passed \<open>isInt({ min: 1 })\<close> and
  \<open>isInt({ min: 1, max: 100 })\<close>, so \<open>page\<close> is at least 1 with no upper bound and
  \<open>limit\<close> lies between 1 and 100.
\<close>

record task_query =
  q_completed :: "string option"
  q_priority :: "priority option"
  q_page :: "nat option"
  q_limit :: "nat option"
  q_search :: "string option"

text \<open>
  The \<open>where\<close> object built by \<open>getTasks\<close>. \<open>iLike\<close> is PostgreSQL's
  case-insensitive pattern match (pattern first); a NULL description matches nothing.
  An empty \<open>search\<close> is falsy and adds no filter.
\<close>

definition tasks_where :: "(string \<Rightarrow> string \<Rightarrow> bool) \<Rightarrow> int \<Rightarrow> task_query \<Rightarrow> task \<Rightarrow> bool" where
  "tasks_where iLike userId q t =
     (t_userId t = userId
      \<and> (case q_completed q of None \<Rightarrow> True | Some c \<Rightarrow> t_completed t = (c = ''true''))
      \<and> (case q_priority q of None \<Rightarrow> True | Some p \<Rightarrow> t_priority t = p)
      \<and> (case q_search q of
            None \<Rightarrow> True
          | Some sr \<Rightarrow>
              if sr = [] then True
              else iLike (''%'' @ sr @ ''%'') (t_title t)
                   \<or> (case t_description t of None \<Rightarrow> False
                        | Some d \<Rightarrow> iLike (''%'' @ sr @ ''%'') d)))"

text \<open>
  \<open>ORDER BY completed ASC, dueDate ASC, createdAt DESC\<close> as a sort key: \<open>false\<close>
  sorts before \<open>true\<close>, PostgreSQL puts NULL last in ascending order, and the
  creation time is negated for the descending key.
\<close>

definition order_key :: "task \<Rightarrow> bool \<times> (bool \<times> int) \<times> int" where
  "order_key t =
     (t_completed t,
      (case t_dueDate t of None \<Rightarrow> (True, 0) | Some d \<Rightarrow> (False, d)),
      - t_createdAt t)"

datatype db_error = DatabaseError

text \<open>
  \<open>Task.findAndCountAll({ where, limit, offset, order })\<close>: the number of matching
  rows and the requested slice of them in order. Rows that agree on all three keys
  keep their table order here; PostgreSQL leaves their order open. The statement
  fails when the offset is \<open>NaN\<close> or does not fit PostgreSQL's \<open>bigint\<close>, and the
  controller's \<open>catch\<close> answers 500.
\<close>

definition Task_findAndCountAll ::
  "store \<Rightarrow> (task \<Rightarrow> bool) \<Rightarrow> nat \<Rightarrow> nat option \<Rightarrow> db_error + nat \<times> task list" where
  "Task_findAndCountAll s wh n off =
     (case off of
        None \<Rightarrow> Inl DatabaseError
      | Some k \<Rightarrow>
          if 2 ^ 63 \<le> k then Inl DatabaseError
          else Inr (length (filter wh (tasks s)),
                    take n (drop k (sort_key order_key (filter wh (tasks s))))))"

record pagination =
  pg_total :: nat
  pg_page :: nat
  pg_limit :: nat
  pg_totalPages :: nat

text \<open>
  \<open>getTasks\<close>. \<open>offset\<close> is \<open>parseInt((page - 1) * limit)\<close>; \<open>parseInt(limit)\<close> and
  \<open>parseInt(page)\<close> read a decimal string (or the default number) as the nearest
  double. A failing query is caught and answered with 500.
\<close>

definition getTasks ::
  "(string \<Rightarrow> string \<Rightarrow> bool) \<Rightarrow> store \<Rightarrow> int \<Rightarrow> task_query \<Rightarrow> (task list \<times> pagination) response" where
  "getTasks iLike s userId q =
     (let page = (case q_page q of None \<Rightarrow> 1 | Some p \<Rightarrow> p);
          limit = (case q_limit q of None \<Rightarrow> 10 | Some l \<Rightarrow> l);
          offset = js_offset page limit
      in case Task_findAndCountAll s (tasks_where iLike userId q) (js_round limit) offset of
           Inl e \<Rightarrow> \<lparr> status = 500, success = False, message = Some ''Error getting tasks'',
                      data = None \<rparr>
         | Inr (count, rows) \<Rightarrow>
             \<lparr> status = 200, success = True, message = None,
               data = Some (rows, \<lparr> pg_total = count, pg_page = js_round page,
                                   pg_limit = js_round limit,
                                   pg_totalPages = js_ceil_div count (js_round limit) \<rparr>) \<rparr>)"

section \<open>Accounts\<close>

text \<open>
  The claims of a token, as \<open>register\<close> and \<open>login\<close> put them together for
  \<open>generarToken\<close>. Signing and verifying (\<open>jwt.sign\<close>, \<open>jwt.verify\<close> with the
  server's secret) are parameters \<open>sign\<close> and \<open>verify\<close> of the controllers.
\<close>

record token_claims =
  c_id :: int
  c_email :: string
  c_name :: string

datatype jwt_error = JsonWebTokenError | TokenExpiredError | NotBeforeError

text \<open>The user object that \<open>register\<close> and \<open>login\<close> write into their answer.\<close>

record public_user =
  pu_id :: int
  pu_name :: string
  pu_email :: string

text \<open>
  A user loaded with \<open>attributes: { exclude: ['password'] }\<close>: every column but the
  password.
\<close>

record user_view =
  v_id :: int
  v_name :: string
  v_email :: string
  v_active :: bool
  v_lastAccess :: "int option"
  v_createdAt :: int
  v_updatedAt :: int

definition exclude_password :: "user \<Rightarrow> user_view" where
  "exclude_password u =
     \<lparr> v_id = u_id u, v_name = u_name u, v_email = u_email u, v_active = u_active u,
       v_lastAccess = u_lastAccess u, v_createdAt = u_createdAt u, v_updatedAt = u_updatedAt u \<rparr>"

definition User_findOne :: "store \<Rightarrow> string \<Rightarrow> user option" where
  "User_findOne s email = find (\<lambda>u. u_email u = email) (users s)"

definition User_findByPk :: "store \<Rightarrow> int \<Rightarrow> user option" where
  "User_findByPk s i = find (\<lambda>u. u_id u = i) (users s)"

text \<open>
  Modelled from the spec: \<open>User.create\<close> with the model's defaults (\<open>active\<close> true,
  no \<open>lastAccess\<close>) and its pre-save hook, which stores \<open>hash password\<close> in place of
  the raw password. The identifier comes from the table's sequence.
\<close>

definition User_create :: "(string \<Rightarrow> string) \<Rightarrow> int \<Rightarrow> store \<Rightarrow> string \<Rightarrow> string \<Rightarrow> string \<Rightarrow> user \<times> store" where
  "User_create hash now s name email password =
     (let u = \<lparr> u_id = next_user_id s, u_name = name, u_email = email,
                 u_password = hash password, u_active = True, u_lastAccess = None,
                 u_createdAt = now, u_updatedAt = now \<rparr>
      in (u, s\<lparr> users := users s @ [u], next_user_id := next_user_id s + 1 \<rparr>))"

text \<open>Saving an instance writes the row with the instance's primary key.\<close>

definition save_user :: "user \<Rightarrow> store \<Rightarrow> store" where
  "save_user u s = s\<lparr> users := map (\<lambda>r. if u_id r = u_id u then u else r) (users s) \<rparr>"

text \<open>
  \<open>User.update({ name }, { where: { id } })\<close>: an \<open>undefined\<close> name is dropped from
  the values, and with no value left Sequelize skips the statement. Otherwise the
  statement sets the name and stamps \<open>updatedAt\<close>.
\<close>

definition User_update :: "string option \<Rightarrow> int \<Rightarrow> int \<Rightarrow> store \<Rightarrow> store" where
  "User_update name i now s =
     (case name of
        None \<Rightarrow> s
      | Some n \<Rightarrow>
          s\<lparr> users := map (\<lambda>r. if u_id r = i then r\<lparr> u_name := n, u_updatedAt := now \<rparr> else r)
                           (users s) \<rparr>)"

record register_body =
  r_name :: string
  r_email :: string
  r_password :: string

definition register ::
  "(string \<Rightarrow> string) \<Rightarrow> (token_claims \<Rightarrow> string) \<Rightarrow> int \<Rightarrow> store \<Rightarrow> register_body
   \<Rightarrow> (public_user \<times> string) response \<times> store" where
  "register hash sign now s b =
     (case User_findOne s (r_email b) of
        Some existingUser \<Rightarrow>
          (\<lparr> status = 400, success = False, message = Some ''Email already registered'',
             data = None \<rparr>, s)
      | None \<Rightarrow>
          (let (u, s') = User_create hash now s (r_name b) (r_email b) (r_password b);
               token = sign \<lparr> c_id = u_id u, c_email = u_email u, c_name = u_name u \<rparr>
           in (\<lparr> status = 201, success = True, message = Some ''User registered successfully'',
                 data = Some (\<lparr> pu_id = u_id u, pu_name = u_name u, pu_email = u_email u \<rparr>,
                              token) \<rparr>,
               s')))"

record login_body =
  l_email :: string
  l_password :: string

text \<open>
  \<open>login\<close>. Modelled from the spec: \<open>user.validatePassword(password)\<close> checks the
  candidate against the stored hash; \<open>compare candidate stored\<close> is that check.
  \<open>user.update({ lastAccess: new Date() })\<close> changes no other column but
  \<open>updatedAt\<close>.
\<close>

definition login ::
  "(string \<Rightarrow> string \<Rightarrow> bool) \<Rightarrow> (token_claims \<Rightarrow> string) \<Rightarrow> int \<Rightarrow> store \<Rightarrow> login_body
   \<Rightarrow> (public_user \<times> string) response \<times> store" where
  "login compare sign now s b =
     (case User_findOne s (l_email b) of
        None \<Rightarrow>
          (\<lparr> status = 401, success = False, message = Some ''Invalid credentials'',
             data = None \<rparr>, s)
      | Some u \<Rightarrow>
          if \<not> u_active u then
            (\<lparr> status = 403, success = False,
               message = Some ''User inactive. Contact administrator'', data = None \<rparr>, s)
          else if \<not> compare (l_password b) (u_password u) then
            (\<lparr> status = 401, success = False, message = Some ''Invalid credentials'',
               data = None \<rparr>, s)
          else
            (let u' = u\<lparr> u_lastAccess := Some now, u_updatedAt := now \<rparr>;
                 token = sign \<lparr> c_id = u_id u', c_email = u_email u', c_name = u_name u' \<rparr>
             in (\<lparr> status = 200, success = True, message = Some ''Session started successfully'',
                   data = Some (\<lparr> pu_id = u_id u', pu_name = u_name u', pu_email = u_email u' \<rparr>,
                                token) \<rparr>,
                 save_user u' s)))"

text \<open>
  \<open>protectRoute\<close>: \<open>Inl\<close> is the 401 answer the guard sends itself, \<open>Inr\<close> is the
  user it attaches to the request as \<open>req.user\<close>. A missing header is \<open>None\<close>; an
  empty one does not start with \<open>Bearer\<close> and a space either. The token is the second
  piece of the header split at spaces. The three errors are the ones the \<open>catch\<close>
  tells apart by name; any other error gets the last answer.
\<close>

definition unauthorized :: "string \<Rightarrow> 'a response" where
  "unauthorized m = \<lparr> status = 401, success = False, message = Some m, data = None \<rparr>"

definition protectRoute ::
  "(string \<Rightarrow> jwt_error + token_claims) \<Rightarrow> store \<Rightarrow> string option \<Rightarrow> 'a response + user_view" where
  "protectRoute verify s authHeader =
     (case authHeader of
        None \<Rightarrow> Inl (unauthorized
          ''Token not provided. Include token in Authorization header: Bearer <token>'')
      | Some h \<Rightarrow>
          if take 7 h \<noteq> ''Bearer '' then Inl (unauthorized
            ''Token not provided. Include token in Authorization header: Bearer <token>'')
          else
            (case verify (takeWhile (\<lambda>c. c \<noteq> CHR '' '') (drop 7 h)) of
               Inl JsonWebTokenError \<Rightarrow> Inl (unauthorized ''Invalid token'')
             | Inl TokenExpiredError \<Rightarrow> Inl (unauthorized ''Token expired'')
             | Inl NotBeforeError \<Rightarrow> Inl (unauthorized ''Unauthorized'')
             | Inr decoded \<Rightarrow>
                 (case User_findByPk s (c_id decoded) of
                    None \<Rightarrow> Inl (unauthorized ''User not found or invalid token'')
                  | Some u \<Rightarrow> Inr (exclude_password u))))"

text \<open>\<open>profile\<close> answers with \<open>req.user\<close> as the guard resolved it.\<close>

definition profile :: "user_view \<Rightarrow> user_view response" where
  "profile req_user = \<lparr> status = 200, success = True, message = None, data = Some req_user \<rparr>"

text \<open>\<open>GET /api/auth/profile\<close>: the guard, then the controller.\<close>

definition get_profile ::
  "(string \<Rightarrow> jwt_error + token_claims) \<Rightarrow> store \<Rightarrow> string option \<Rightarrow> user_view response" where
  "get_profile verify s authHeader =
     (case protectRoute verify s authHeader of Inl r \<Rightarrow> r | Inr u \<Rightarrow> profile u)"

text \<open>
  \<open>updateProfile\<close>: the answer's user is \<open>null\<close> (\<open>Some None\<close>) when the row is gone.
\<close>

definition updateProfile ::
  "int \<Rightarrow> store \<Rightarrow> user_view \<Rightarrow> string option \<Rightarrow> user_view option response \<times> store" where
  "updateProfile now s req_user name =
     (let s' = User_update name (v_id req_user) now s;
          updatedUser = map_option exclude_password (User_findByPk s' (v_id req_user))
      in (\<lparr> status = 200, success = True, message = Some ''Profile updated successfully'',
            data = Some updatedUser \<rparr>, s'))"

section \<open>Vocabulary of the statements\<close>

text \<open>
  Two stores that differ at most in the password hashes they hold: same users in the
  same order apart from the \<open>password\<close> column, same tasks, same sequence.
\<close>

definition erase_password :: "user \<Rightarrow> user" where
  "erase_password u = u\<lparr> u_password := [] \<rparr>"

definition same_but_passwords :: "store \<Rightarrow> store \<Rightarrow> bool" where
  "same_but_passwords s s' =
     (map erase_password (users s) = map erase_password (users s')
      \<and> tasks s = tasks s' \<and> next_user_id s = next_user_id s')"

text \<open>
  Ascending order of due dates as PostgreSQL sorts them: a task without a due date
  comes after every task that has one.
\<close>

definition dueDate_le :: "int option \<Rightarrow> int option \<Rightarrow> bool" where
  "dueDate_le a b =
     (case a of None \<Rightarrow> b = None
      | Some x \<Rightarrow> (case b of None \<Rightarrow> True | Some y \<Rightarrow> x \<le> y))"

section \<open>Example data\<close>

text \<open>
  A small store for the concrete instances below: user 1 (active) owns tasks 1, 2, 4,
  5 and 6, user 2 (inactive) owns task 3. The collaborators outside the repository
  (hashing, token signing, pattern matching) are universally quantified in the
  theorems; the instances use the simple stand-ins defined here.
\<close>

definition example_task :: "int \<Rightarrow> int \<Rightarrow> bool \<Rightarrow> int option \<Rightarrow> priority \<Rightarrow> int \<Rightarrow> task" where
  "example_task i owner done due p created =
     \<lparr> t_id = i, t_title = ''task'', t_description = None, t_completed = done,
       t_dueDate = due, t_priority = p, t_tags = None, t_userId = owner,
       t_createdAt = created, t_updatedAt = created \<rparr>"

definition example_user :: "int \<Rightarrow> string \<Rightarrow> string \<Rightarrow> bool \<Rightarrow> user" where
  "example_user i email stored active =
     \<lparr> u_id = i, u_name = ''user'', u_email = email, u_password = stored,
       u_active = active, u_lastAccess = None, u_createdAt = 0, u_updatedAt = 0 \<rparr>"

definition example_store :: store where
  "example_store =
     \<lparr> users = [example_user 1 ''a@x.io'' ''#Secret1'' True,
                example_user 2 ''b@x.io'' ''#Secret2'' False],
       tasks = [example_task 1 1 False (Some 50) High 10,
                example_task 2 1 True None Low 20,
                example_task 3 2 False None Medium 30,
                example_task 4 1 False None Medium 40,
                example_task 5 1 False (Some 50) High 60,
                example_task 6 1 True (Some 70) Low 5],
       next_user_id = 3 \<rparr>"

definition other_hash_store :: store where
  "other_hash_store =
     example_store\<lparr> users := [example_user 1 ''a@x.io'' ''#Changed9'' True,
                                example_user 2 ''b@x.io'' ''#Secret2'' False] \<rparr>"

definition example_hash :: "string \<Rightarrow> string" where
  "example_hash password = ''#'' @ password"

definition example_compare :: "string \<Rightarrow> string \<Rightarrow> bool" where
  "example_compare candidate stored = (stored = example_hash candidate)"

definition example_sign :: "token_claims \<Rightarrow> string" where
  "example_sign c = c_email c @ ''.signed''"

definition example_verify :: "string \<Rightarrow> jwt_error + token_claims" where
  "example_verify token =
     (if token = ''a@x.io.signed'' then Inr \<lparr> c_id = 1, c_email = ''a@x.io'', c_name = ''user'' \<rparr>
      else Inl JsonWebTokenError)"

definition example_iLike :: "string \<Rightarrow> string \<Rightarrow> bool" where
  "example_iLike pattern text = (pattern = ''%'' @ text @ ''%'')"

definition plain_query :: task_query where
  "plain_query =
     \<lparr> q_completed = None, q_priority = None, q_page = None, q_limit = None,
       q_search = None \<rparr>"

definition huge_page_query :: task_query where
  "huge_page_query =
     \<lparr> q_completed = None, q_priority = None, q_page = Some 1000000000000000000000,
       q_limit = Some 1, q_search = None \<rparr>"

definition only_completed :: task_body where
  "only_completed =
     \<lparr> b_title = None, b_description = None, b_completed = Some True, b_dueDate = None,
       b_priority = None, b_tags = None \<rparr>"

section \<open>Ownership scoping\<close>

lemma Task_findOne_None_iff:
  "Task_findOne s i userId = None \<longleftrightarrow> (\<forall>t \<in> set (tasks s). \<not> (t_id t = i \<and> t_userId t = userId))"
  by (auto simp add: Task_findOne_def find_None_iff)

lemma distinct_map_eq:
  "distinct (map f xs) \<Longrightarrow> x \<in> set xs \<Longrightarrow> y \<in> set xs \<Longrightarrow> f x = f y \<Longrightarrow> x = y"
  by (meson distinct_map inj_on_def)

lemma foreign_findOne:
  assumes "t \<in> set (tasks s)" "t_userId t = a" "b \<noteq> a" "distinct (map t_id (tasks s))"
  shows "Task_findOne s (t_id t) b = None"
  unfolding Task_findOne_None_iff
  using assms distinct_map_eq[of t_id "tasks s"] by blast

lemma removed_findOne: "Task_findOne (destroy_task t s) (t_id t) b = None"
  by (simp add: Task_findOne_None_iff destroy_task_def)

text \<open>
  Claim C1. Let \<open>t\<close> be a task of user \<open>a\<close> in a store whose task identifiers are
  unique (the primary key), and let \<open>b\<close> be another user. Then \<open>getTask\<close>,
  \<open>updateTask\<close> and \<open>deleteTask\<close> called by \<open>b\<close> with \<open>t\<close>'s identifier answer 404
  "Task not found" and leave the store as it is, and each answer equals the one given
  by the store from which every row with that identifier has been deleted.
\<close>

theorem foreign_task_not_found:
  assumes "t \<in> set (tasks s)" "t_userId t = a" "b \<noteq> a" "distinct (map t_id (tasks s))"
  shows "getTask s b (t_id t) = task_not_found
       \<and> updateTask now s b (t_id t) body = (task_not_found, s)
       \<and> deleteTask s b (t_id t) = (task_not_found, s)
       \<and> getTask s b (t_id t) = getTask (destroy_task t s) b (t_id t)
       \<and> fst (updateTask now s b (t_id t) body)
           = fst (updateTask now (destroy_task t s) b (t_id t) body)
       \<and> fst (deleteTask s b (t_id t)) = fst (deleteTask (destroy_task t s) b (t_id t))"
  using foreign_findOne[OF assms]
  by (simp add: getTask_def updateTask_def deleteTask_def removed_findOne)

theorem foreign_task_not_found_witness:
  "example_task 3 2 False None Medium 30 \<in> set (tasks example_store)
   \<and> distinct (map t_id (tasks example_store))
   \<and> getTask example_store 1 3 = task_not_found
   \<and> updateTask 99 example_store 1 3 only_completed = (task_not_found, example_store)
   \<and> deleteTask example_store 1 3 = (task_not_found, example_store)
   \<and> getTask example_store 1 3
       = getTask (destroy_task (example_task 3 2 False None Medium 30) example_store) 1 3"
proof -
  have m: "example_task 3 2 False None Medium 30 \<in> set (tasks example_store)"
    by (simp add: example_store_def)
  have o: "t_userId (example_task 3 2 False None Medium 30) = 2"
    by (simp add: example_task_def)
  have d: "distinct (map t_id (tasks example_store))"
    by (simp add: example_store_def example_task_def)
  have i: "t_id (example_task 3 2 False None Medium 30) = 3"
    by (simp add: example_task_def)
  have n: "(1::int) \<noteq> 2"
    by simp
  show ?thesis
    using foreign_task_not_found[OF m o n d, where now = 99 and body = only_completed] m d
    unfolding i by blast
qed

section \<open>Partial update\<close>

lemma findOne_save:
  assumes "Task_findOne s i userId = Some t" "t_id t' = t_id t" "t_userId t' = t_userId t"
  shows "Task_findOne (save_task t' s) i userId = Some t'"
proof -
  from assms(1) have t: "t \<in> set (tasks s)" "t_id t = i" "t_userId t = userId"
    by (auto simp: Task_findOne_def find_Some_iff)
  have "find (\<lambda>r. t_id r = i \<and> t_userId r = userId) (map (\<lambda>r. if t_id r = i then t' else r) xs) = Some t'"
    if "t \<in> set xs" for xs
    using that t assms(2,3) by (induction xs) auto
  with t assms(2) show ?thesis
    by (simp add: Task_findOne_def save_task_def)
qed

lemma filter_map_replace:
  "(\<And>r. Q r \<Longrightarrow> \<not> P r) \<Longrightarrow> \<not> P c \<Longrightarrow>
   filter P (map (\<lambda>r. if Q r then c else r) xs) = filter P xs"
  by (induction xs) auto

text \<open>
  Claim C3. When the caller owns a task with the requested identifier, \<open>updateTask\<close>
  answers 200 with the stored task, and in the stored task each of title, description,
  completed, dueDate, priority and tags has the value supplied in the body, or its
  prior value when the body does not supply it; the identifier, the owner and the
  creation time stay, and so do all rows with another identifier and all users. With
  a body that holds only \<open>completed\<close>, the other five fields keep their values.
\<close>

theorem updateTask_changes_supplied_fields:
  assumes "Task_findOne s i userId = Some t"
  shows "case updateTask now s userId i b of (r, s') \<Rightarrow>
           status r = 200 \<and> data r = Task_findOne s' i userId \<and>
           (case Task_findOne s' i userId of
              None \<Rightarrow> False
            | Some t' \<Rightarrow>
                t_title t' = (case b_title b of None \<Rightarrow> t_title t | Some v \<Rightarrow> v) \<and>
                t_description t' = (case b_description b of None \<Rightarrow> t_description t | Some v \<Rightarrow> Some v) \<and>
                t_completed t' = (case b_completed b of None \<Rightarrow> t_completed t | Some v \<Rightarrow> v) \<and>
                t_dueDate t' = (case b_dueDate b of None \<Rightarrow> t_dueDate t | Some v \<Rightarrow> Some v) \<and>
                t_priority t' = (case b_priority b of None \<Rightarrow> t_priority t | Some v \<Rightarrow> v) \<and>
                t_tags t' = (case b_tags b of None \<Rightarrow> t_tags t | Some v \<Rightarrow> v) \<and>
                t_id t' = t_id t \<and> t_userId t' = t_userId t \<and> t_createdAt t' = t_createdAt t) \<and>
           filter (\<lambda>r. t_id r \<noteq> i) (tasks s') = filter (\<lambda>r. t_id r \<noteq> i) (tasks s) \<and>
           users s' = users s"
proof -
  let ?t' = "set_values b now t"
  have i: "t_id t = i"
    using assms by (auto simp: Task_findOne_def find_Some_iff)
  have f: "Task_findOne (save_task ?t' s) i userId = Some ?t'"
    by (rule findOne_save[OF assms]) (simp_all add: set_values_def)
  have o: "filter (\<lambda>r. t_id r \<noteq> i) (tasks (save_task ?t' s)) = filter (\<lambda>r. t_id r \<noteq> i) (tasks s)"
    unfolding save_task_def using i
    by (simp add: filter_map_replace set_values_def)
  show ?thesis
    using assms f o by (simp add: updateTask_def Let_def) (simp add: set_values_def save_task_def)
qed

theorem updateTask_changes_supplied_fields_witness:
  "Task_findOne example_store 1 1 = Some (example_task 1 1 False (Some 50) High 10)
   \<and> (case updateTask 99 example_store 1 1 only_completed of (r, s') \<Rightarrow>
         status r = 200 \<and> data r = Task_findOne s' 1 1 \<and>
         (case Task_findOne s' 1 1 of
            None \<Rightarrow> False
          | Some t' \<Rightarrow>
              t_completed t' = True \<and> t_title t' = ''task'' \<and> t_description t' = None \<and>
              t_dueDate t' = Some 50 \<and> t_priority t' = High \<and> t_tags t' = None))"
proof -
  have f: "Task_findOne example_store 1 1 = Some (example_task 1 1 False (Some 50) High 10)"
    by (simp add: Task_findOne_def example_store_def example_task_def)
  show ?thesis
    using updateTask_changes_supplied_fields[OF f, where now = 99 and b = only_completed] f
    by (simp add: only_completed_def example_task_def split: prod.splits option.splits)
qed

section \<open>Exact arithmetic below \<open>2 ^ 53\<close>\<close>

lemma js_round_exact: "n \<le> 9007199254740992 \<Longrightarrow> js_round n = n"
  by (simp add: js_round_def)

lemma js_ceil_div_int: "js_ceil_div n l = nat (- (- int n div int l))"
proof -
  have "\<lceil>real_of_int (int n) / real_of_int (int l)\<rceil> = - (- int n div int l)"
    by (rule ceiling_divide_eq_div)
  then show ?thesis
    by (simp add: js_ceil_div_def)
qed

lemma js_offset_exact:
  assumes "1 \<le> p" "p * l \<le> 2 ^ 53" "1 \<le> l"
  shows "js_offset p l = Some ((p - 1) * l)"
proof -
  have pl: "p \<le> p * l" "l \<le> p * l" "(p - 1) * l \<le> p * l"
    using assms(1,3) by (simp_all add: mult_le_mono1)
  with assms(2) have b: "p \<le> 2 ^ 53" "l \<le> 2 ^ 53" "(p - 1) * l \<le> 2 ^ 53" "p - 1 \<le> 2 ^ 53"
    by linarith+
  then have r: "js_round p = p" "js_round l = l" "js_round (p - 1) = p - 1"
    "js_round ((p - 1) * l) = (p - 1) * l"
    by (simp_all add: js_round_exact)
  have "(p - 1) * l < 10 ^ 21" "\<not> (2::nat) ^ 1024 \<le> p" "\<not> (2::nat) ^ 1024 \<le> (p - 1) * l"
    using b by simp_all
  then show ?thesis
    unfolding js_offset_def Let_def r js_parseInt_def by simp
qed

section \<open>Listing: order\<close>

lemma sorted_slice: "sorted (map f (take n (drop k (sort_key f xs))))"
proof -
  have "sorted (map f (sort_key f xs))"
    by (rule sorted_sort_key)
  then have "sorted (take n (drop k (map f (sort_key f xs))))"
    by (intro sorted_wrt_take sorted_wrt_drop)
  then show ?thesis
    by (simp add: take_map drop_map)
qed

lemma getTasks_rows:
  assumes "data (getTasks iLike s userId q) = Some (rows, pg)"
  shows "\<exists>n k. rows = take n (drop k (sort_key order_key (filter (tasks_where iLike userId q) (tasks s))))"
  using assms
  by (auto simp: getTasks_def Task_findAndCountAll_def Let_def
      split: option.splits if_splits sum.splits)

lemma order_key_le:
  assumes "order_key a \<le> order_key b"
  shows "(t_completed a \<longrightarrow> t_completed b)
       \<and> (t_completed a = t_completed b \<longrightarrow> dueDate_le (t_dueDate a) (t_dueDate b))
       \<and> (t_completed a = t_completed b \<and> t_dueDate a = t_dueDate b
            \<longrightarrow> t_createdAt b \<le> t_createdAt a)"
  using assms
  by (auto simp: order_key_def less_eq_prod_def dueDate_le_def split: option.splits)

text \<open>
  Claim C6. In the task list of any successful listing answer, for any two positions
  \<open>i < j\<close>: a completed task at \<open>i\<close> is followed only by completed tasks; when both
  tasks have the same completion state, the due date at \<open>i\<close> is at most the one at
  \<open>j\<close> (tasks without a due date last); and when they also have the same due date, the
  task at \<open>j\<close> was created no later than the one at \<open>i\<close>. \<open>getTasks\<close> takes no
  ordering parameter, so this is the only order.
\<close>

theorem listing_order:
  assumes "data (getTasks iLike s userId q) = Some (rows, pg)" "i < j" "j < length rows"
  shows "(t_completed (rows ! i) \<longrightarrow> t_completed (rows ! j))
       \<and> (t_completed (rows ! i) = t_completed (rows ! j)
            \<longrightarrow> dueDate_le (t_dueDate (rows ! i)) (t_dueDate (rows ! j)))
       \<and> (t_completed (rows ! i) = t_completed (rows ! j)
            \<and> t_dueDate (rows ! i) = t_dueDate (rows ! j)
            \<longrightarrow> t_createdAt (rows ! j) \<le> t_createdAt (rows ! i))"
proof -
  from getTasks_rows[OF assms(1)] have "sorted (map order_key rows)"
    using sorted_slice by blast
  with assms(2,3) have "order_key (rows ! i) \<le> order_key (rows ! j)"
    by (simp add: sorted_iff_nth_mono_less)
  then show ?thesis
    by (rule order_key_le)
qed

lemma example_sorted:
  assumes "q_completed q = None" "q_priority q = None" "q_search q = None"
  shows "sort_key order_key (filter (tasks_where example_iLike 1 q) (tasks example_store))
   = [example_task 5 1 False (Some 50) High 60, example_task 1 1 False (Some 50) High 10,
      example_task 4 1 False None Medium 40, example_task 6 1 True (Some 70) Low 5,
      example_task 2 1 True None Low 20]"
  using assms
  by (simp add: example_store_def tasks_where_def example_task_def order_key_def
      less_eq_prod_def less_prod_def)

lemma example_listing:
  "data (getTasks example_iLike example_store 1 plain_query)
   = Some ([example_task 5 1 False (Some 50) High 60, example_task 1 1 False (Some 50) High 10,
            example_task 4 1 False None Medium 40, example_task 6 1 True (Some 70) Low 5,
      example_task 2 1 True None Low 20],
           \<lparr> pg_total = 5, pg_page = 1, pg_limit = 10, pg_totalPages = 1 \<rparr>)"
proof -
  have q: "q_page plain_query = None" "q_limit plain_query = None"
    by (simp_all add: plain_query_def)
  have e: "sort_key order_key (filter (tasks_where example_iLike 1 plain_query) (tasks example_store))
   = [example_task 5 1 False (Some 50) High 60, example_task 1 1 False (Some 50) High 10,
      example_task 4 1 False None Medium 40, example_task 6 1 True (Some 70) Low 5,
      example_task 2 1 True None Low 20]"
    by (rule example_sorted) (simp_all add: plain_query_def)
  have f: "length (filter (tasks_where example_iLike 1 plain_query) (tasks example_store)) = 5"
    by (simp add: example_store_def tasks_where_def example_task_def plain_query_def)
  have o: "js_offset 1 10 = Some 0"
    using js_offset_exact[of 1 10] by simp
  show ?thesis
    unfolding getTasks_def Let_def q option.case o Task_findAndCountAll_def e f
    by (simp add: js_round_exact js_ceil_div_int)
qed

theorem listing_order_witness:
  "data (getTasks example_iLike example_store 1 plain_query)
   = Some ([example_task 5 1 False (Some 50) High 60, example_task 1 1 False (Some 50) High 10,
            example_task 4 1 False None Medium 40, example_task 6 1 True (Some 70) Low 5,
            example_task 2 1 True None Low 20],
           \<lparr> pg_total = 5, pg_page = 1, pg_limit = 10, pg_totalPages = 1 \<rparr>)
   \<and> t_completed (example_task 5 1 False (Some 50) High 60)
       = t_completed (example_task 1 1 False (Some 50) High 10)
   \<and> t_dueDate (example_task 5 1 False (Some 50) High 60)
       = t_dueDate (example_task 1 1 False (Some 50) High 10)
   \<and> t_createdAt (example_task 1 1 False (Some 50) High 10)
       \<le> t_createdAt (example_task 5 1 False (Some 50) High 60)
   \<and> dueDate_le (t_dueDate (example_task 1 1 False (Some 50) High 10))
        (t_dueDate (example_task 4 1 False None Medium 40))
   \<and> t_completed (example_task 6 1 True (Some 70) Low 5)
   \<and> t_completed (example_task 2 1 True None Low 20)
   \<and> dueDate_le (t_dueDate (example_task 6 1 True (Some 70) Low 5))
        (t_dueDate (example_task 2 1 True None Low 20))"
proof -
  let ?rows = "[example_task 5 1 False (Some 50) High 60, example_task 1 1 False (Some 50) High 10,
            example_task 4 1 False None Medium 40, example_task 6 1 True (Some 70) Low 5,
            example_task 2 1 True None Low 20]"
  have a: "(0::nat) < 1" "(1::nat) < 2" "(3::nat) < 4"
    by simp_all
  have n: "(1::nat) < length ?rows" "(2::nat) < length ?rows" "(4::nat) < length ?rows"
    by simp_all
  show ?thesis
    using listing_order[OF example_listing a(1) n(1)] listing_order[OF example_listing a(2) n(2)]
      listing_order[OF example_listing a(3) n(3)] example_listing
    by (simp add: example_task_def)
qed

section \<open>Listing: pagination\<close>

lemma ceil_div_less:
  assumes "0 < l" "js_ceil_div n l < p"
  shows "n \<le> (p - 1) * l"
proof -
  have "real n / real l \<le> real (js_ceil_div n l)"
    unfolding js_ceil_div_def by (simp add: le_nat_iff)
  also have "\<dots> \<le> real (p - 1)"
    using assms(2) by simp
  finally have "real n \<le> real (p - 1) * real l"
    using assms(1) by (simp add: pos_divide_le_eq)
  then show ?thesis
    by (metis of_nat_le_iff of_nat_mult)
qed

text \<open>
  While \<open>page * limit\<close> stays within the integers a double holds exactly, the listing
  paginates as specified: the total is the number of matching tasks, \<open>totalPages\<close> is
  the ceiling of \<open>total / limit\<close>, the rows are the slice of length at most \<open>limit\<close>
  at offset \<open>(page - 1) * limit\<close>, and a page beyond the last one is empty.
\<close>

lemma pagination_in_range:
  assumes "1 \<le> p" "1 \<le> l" "l \<le> 100" "p * l \<le> 2 ^ 53"
    and "q_page q = Some p" "q_limit q = Some l"
  shows "case data (getTasks iLike s userId q) of
           None \<Rightarrow> False
         | Some (rows, pg) \<Rightarrow>
             pg_total pg = length (filter (tasks_where iLike userId q) (tasks s))
             \<and> real (pg_totalPages pg) = of_int \<lceil>real (pg_total pg) / real l\<rceil>
             \<and> rows = take l (drop ((p - 1) * l)
                        (sort_key order_key (filter (tasks_where iLike userId q) (tasks s))))
             \<and> length rows \<le> l
             \<and> (pg_totalPages pg < p \<longrightarrow> rows = [])"
proof -
  have o: "js_offset p l = Some ((p - 1) * l)"
    using assms(1,4,2) by (rule js_offset_exact)
  have pl: "l \<le> p * l" "(p - 1) * l \<le> p * l" "p \<le> p * l"
    using assms(1,2) by (simp_all add: mult_le_mono1)
  with assms(4) have b: "l \<le> 2 ^ 53" "(p - 1) * l \<le> 2 ^ 53" "p \<le> 2 ^ 53"
    by linarith+
  then have k: "\<not> (2::nat) ^ 63 \<le> (p - 1) * l"
    by simp
  have r: "js_round l = l" "js_round p = p"
    using b by (simp_all add: js_round_exact)
  have c: "0 \<le> \<lceil>real n / real l\<rceil>" for n
  proof -
    have "0 \<le> real n / real l" by simp
    then show ?thesis by linarith
  qed
  have e: "js_ceil_div n l < p \<Longrightarrow> n \<le> (p - 1) * l" for n
    using ceil_div_less[of l n p] assms(2) by simp
  show ?thesis
    using assms(5,6) o k e c
    by (simp add: getTasks_def Let_def Task_findAndCountAll_def r js_ceil_div_def)
qed

lemma js_round_1e21: "js_round 1000000000000000000000 = 1000000000000000000000"
  by (simp add: js_round_def bit_length.simps Let_def)

lemma js_round_1e21_pred: "js_round 999999999999999999999 = 1000000000000000000000"
  by (simp add: js_round_def bit_length.simps Let_def)

lemma leading_digit_1e21: "leading_digit 1000000000000000000000 = 1"
  by (simp add: leading_digit_def repr_candidates_def dec_length.simps js_round_1e21 upt_rec)

lemma js_offset_1e21: "js_offset 1000000000000000000000 1 = Some 1"
  by (simp add: js_offset_def Let_def js_round_1e21 js_round_1e21_pred js_parseInt_def
      leading_digit_1e21 js_round_exact)

text \<open>
  Claim C7 says that for every page of at least 1 and every limit from 1 to 100 the
  answer reports \<open>totalPages\<close> as the ceiling of \<open>total / limit\<close>, returns the slice at
  offset \<open>(page - 1) * limit\<close>, and returns no task for a page beyond the last one.
  \<open>pagination_in_range\<close> shows this for the pages a double holds exactly. It fails for
  \<open>page = 10 ^ 21\<close>, which the route's \<open>isInt({ min: 1 })\<close> accepts: \<open>(page - 1) * limit\<close>
  is the double \<open>1e+21\<close>, \<open>parseInt\<close> reads the text \<open>1e+21\<close> as 1, and the listing answers
  page \<open>10 ^ 21\<close> of 5 with the second task of the first page.
\<close>

theorem getTasks_page_1e21:
  "getTasks example_iLike example_store 1 huge_page_query
   = \<lparr> status = 200, success = True, message = None,
       data = Some ([example_task 1 1 False (Some 50) High 10],
                    \<lparr> pg_total = 5, pg_page = 1000000000000000000000, pg_limit = 1,
                      pg_totalPages = 5 \<rparr>) \<rparr>"
proof -
  have f: "length (filter (tasks_where example_iLike 1 huge_page_query) (tasks example_store)) = 5"
    by (simp add: example_store_def tasks_where_def example_task_def huge_page_query_def)
  have q: "q_page huge_page_query = Some 1000000000000000000000" "q_limit huge_page_query = Some 1"
    by (simp_all add: huge_page_query_def)
  have e: "sort_key order_key (filter (tasks_where example_iLike 1 huge_page_query) (tasks example_store))
   = [example_task 5 1 False (Some 50) High 60, example_task 1 1 False (Some 50) High 10,
      example_task 4 1 False None Medium 40, example_task 6 1 True (Some 70) Low 5,
      example_task 2 1 True None Low 20]"
    by (rule example_sorted) (simp_all add: huge_page_query_def)
  show ?thesis
    unfolding getTasks_def Let_def q option.case js_offset_1e21 Task_findAndCountAll_def e f
    by (simp add: js_round_exact js_round_1e21 js_ceil_div_int)
qed

section \<open>Listing: defaults\<close>

lemma tasks_where_page [simp]: "tasks_where iLike userId (q\<lparr> q_page := x \<rparr>) = tasks_where iLike userId q"
  by (rule ext) (simp add: tasks_where_def)

lemma tasks_where_limit [simp]: "tasks_where iLike userId (q\<lparr> q_limit := x \<rparr>) = tasks_where iLike userId q"
  by (rule ext) (simp add: tasks_where_def)

text \<open>
  Claim C10. A listing request without \<open>page\<close> is answered as the same request with
  \<open>page = 1\<close>, and one without \<open>limit\<close> as the same request with \<open>limit = 10\<close>. With
  both omitted the answer is 200 with the first 10 matching tasks in order (offset 0),
  and its pagination object reports page 1 and limit 10.
\<close>

theorem listing_defaults:
  "getTasks iLike s userId (q\<lparr> q_page := None \<rparr>) = getTasks iLike s userId (q\<lparr> q_page := Some 1 \<rparr>)
   \<and> getTasks iLike s userId (q\<lparr> q_limit := None \<rparr>) = getTasks iLike s userId (q\<lparr> q_limit := Some 10 \<rparr>)
   \<and> getTasks iLike s userId (q\<lparr> q_page := None, q_limit := None \<rparr>)
       = \<lparr> status = 200, success = True, message = None,
           data = Some (take 10 (sort_key order_key (filter (tasks_where iLike userId q) (tasks s))),
                        \<lparr> pg_total = length (filter (tasks_where iLike userId q) (tasks s)),
                          pg_page = 1, pg_limit = 10,
                          pg_totalPages =
                            js_ceil_div (length (filter (tasks_where iLike userId q) (tasks s))) 10 \<rparr>) \<rparr>
   \<and> length (take 10 (sort_key order_key (filter (tasks_where iLike userId q) (tasks s)))) \<le> 10"
proof -
  have o: "js_offset (Suc 0) 10 = Some 0"
    using js_offset_exact[of 1 10] by simp
  have r: "js_round (Suc 0) = Suc 0" "js_round 10 = 10"
    by (simp_all add: js_round_def)
  show ?thesis
    by (simp add: getTasks_def Let_def o r Task_findAndCountAll_def)
qed

theorem listing_defaults_witness:
  "getTasks example_iLike example_store 1 plain_query
     = getTasks example_iLike example_store 1 (plain_query\<lparr> q_page := Some 1, q_limit := Some 10 \<rparr>)
   \<and> data (getTasks example_iLike example_store 1 plain_query)
       = Some (take 10 [example_task 5 1 False (Some 50) High 60,
                        example_task 1 1 False (Some 50) High 10,
                        example_task 4 1 False None Medium 40,
                        example_task 6 1 True (Some 70) Low 5,
                        example_task 2 1 True None Low 20],
               \<lparr> pg_total = 5, pg_page = 1, pg_limit = 10, pg_totalPages = 1 \<rparr>)"
proof -
  have p: "plain_query\<lparr> q_page := None, q_limit := None \<rparr> = plain_query"
    "plain_query\<lparr> q_limit := None \<rparr> = plain_query"
    by (simp_all add: plain_query_def)
  have "getTasks example_iLike example_store 1 plain_query
      = getTasks example_iLike example_store 1 (plain_query\<lparr> q_limit := Some 10 \<rparr>)"
    using listing_defaults[of example_iLike example_store 1 plain_query] by (simp add: p)
  also have "\<dots> = getTasks example_iLike example_store 1 (plain_query\<lparr> q_limit := Some 10, q_page := None \<rparr>)"
    by (simp add: plain_query_def)
  also have "\<dots> = getTasks example_iLike example_store 1 (plain_query\<lparr> q_limit := Some 10, q_page := Some 1 \<rparr>)"
    using listing_defaults[of example_iLike example_store 1 "plain_query\<lparr> q_limit := Some 10 \<rparr>"]
    by simp
  finally show ?thesis
    using example_listing by (simp add: plain_query_def)
qed

section \<open>Statistics\<close>

lemma fold_upd_map_of:
  "fold (\<lambda>item acc. acc(fst item \<mapsto> snd item)) xs m = m ++ map_of (rev xs)"
  by (induction xs arbitrary: m) (auto simp: map_add_def fun_eq_iff split: option.splits)

lemma priority_UNIV: "(UNIV :: priority set) = {Low, Medium, High}"
  by (auto intro: priority.exhaust)

lemma length_by_priority:
  "length (filter (\<lambda>t. t_priority t = Low) xs) + length (filter (\<lambda>t. t_priority t = Medium) xs)
   + length (filter (\<lambda>t. t_priority t = High) xs) = length xs"
proof (induction xs)
  case Nil
  then show ?case by simp
next
  case (Cons x xs)
  then show ?case by (cases "t_priority x") auto
qed

lemma grouped_lookup:
  "count_of (fold (\<lambda>item acc. acc(fst item \<mapsto> snd item)) (map (\<lambda>p. (p, c p)) ps) Map.empty) p
   = (if p \<in> set ps then c p else 0)"
proof -
  have "map_of (rev (map (\<lambda>p. (p, c p)) ps)) p = (if p \<in> set ps then Some (c p) else None)"
    by (induction ps) (auto simp: map_add_def split: option.splits)
  then show ?thesis
    by (simp add: count_of_def fold_upd_map_of)
qed

lemma rows_lookup:
  "count_of (fold (\<lambda>item acc. acc(fst item \<mapsto> snd item))
       (map (\<lambda>p. (p, length (filter (\<lambda>t. t_priority t = p) rows))) (remdups (map t_priority rows)))
       Map.empty) p
   = length (filter (\<lambda>t. t_priority t = p) rows)"
  unfolding grouped_lookup by (auto simp: filter_empty_conv)

lemma byPriority_lookup:
  "count_of (fold (\<lambda>item acc. acc(fst item \<mapsto> snd item)) (Task_groupByPriority s u) Map.empty) p
   = length (filter (\<lambda>t. t_priority t = p) (filter (\<lambda>t. t_userId t = u) (tasks s)))"
  unfolding Task_groupByPriority_def Let_def by (rule rows_lookup)

lemma sum_values_count_of:
  "(\<Sum>p \<in> dom m. the (m p)) = count_of m Low + count_of m Medium + count_of m High"
proof -
  have f: "finite (UNIV :: priority set)"
    by (simp add: priority_UNIV)
  have "(\<Sum>p \<in> dom m. the (m p)) = (\<Sum>p \<in> dom m. count_of m p)"
    by (rule sum.cong) (auto simp: count_of_def)
  also have "\<dots> = (\<Sum>p \<in> UNIV. count_of m p)"
    by (rule sum.mono_neutral_left) (use f in \<open>auto simp: count_of_def split: option.splits\<close>)
  also have "\<dots> = count_of m Low + count_of m Medium + count_of m High"
    by (simp add: priority_UNIV add.assoc)
  finally show ?thesis .
qed

text \<open>
  Claim C5. For every store and user, \<open>getStatistics\<close> answers with counts such that
  \<open>total = completed + pending\<close>, and the values of the \<open>byPriority\<close> object add up to
  \<open>total\<close>; a priority that is not a key of the object counts as zero.
\<close>

theorem statistics_totals:
  "case data (getStatistics s userId) of
     None \<Rightarrow> False
   | Some st \<Rightarrow>
       st_total st = st_completed st + st_pending st
       \<and> (\<Sum>p \<in> dom (st_byPriority st). the (st_byPriority st p)) = st_total st
       \<and> count_of (st_byPriority st) Low + count_of (st_byPriority st) Medium
           + count_of (st_byPriority st) High = st_total st"
proof -
  have a: "length (filter (\<lambda>t. t_userId t = userId) xs)
         = length (filter (\<lambda>t. t_userId t = userId \<and> t_completed t) xs)
         + length (filter (\<lambda>t. t_userId t = userId \<and> \<not> t_completed t) xs)" for xs :: "task list"
    by (induction xs) auto
  show ?thesis
    using a[of "tasks s"] length_by_priority[of "filter (\<lambda>t. t_userId t = userId) (tasks s)"]
    by (simp add: getStatistics_def Let_def sum_values_count_of byPriority_lookup Task_count_def)
qed

theorem statistics_totals_witness:
  "case data (getStatistics example_store 1) of
     None \<Rightarrow> False
   | Some st \<Rightarrow>
       st_total st = 5 \<and> st_completed st = 2 \<and> st_pending st = 3
       \<and> st_byPriority st High = Some 2 \<and> st_byPriority st Low = Some 2
       \<and> st_byPriority st Medium = Some 1
       \<and> (\<Sum>p \<in> dom (st_byPriority st). the (st_byPriority st p)) = 5"
  using statistics_totals[of example_store 1]
  by (simp add: getStatistics_def Let_def Task_count_def Task_groupByPriority_def
      example_store_def example_task_def)

section \<open>Login\<close>

lemma User_findOne_None_iff:
  "User_findOne s e = None \<longleftrightarrow> (\<forall>u \<in> set (users s). u_email u \<noteq> e)"
  by (auto simp: User_findOne_def find_None_iff)

lemma findByPk_save:
  assumes "u \<in> set (users s)" "u_id u' = u_id u"
  shows "User_findByPk (save_user u' s) (u_id u) = Some u'"
proof -
  have "find (\<lambda>r. u_id r = u_id u) (map (\<lambda>r. if u_id r = u_id u then u' else r) xs) = Some u'"
    if "u \<in> set xs" for xs
    using that assms(2) by (induction xs) auto
  with assms show ?thesis
    by (simp add: User_findByPk_def save_user_def)
qed

lemma example_findOne:
  "User_findOne example_store ''a@x.io'' = Some (example_user 1 ''a@x.io'' ''#Secret1'' True)"
  "User_findOne example_store ''b@x.io'' = Some (example_user 2 ''b@x.io'' ''#Secret2'' False)"
  "User_findOne example_store ''c@x.io'' = None"
  by (simp_all add: User_findOne_def example_store_def example_user_def)

text \<open>
  Claim C4. \<open>login\<close> answers 401 "Invalid credentials" when no user has the email;
  for the user found by the email it answers 403 when the user is inactive, 401
  "Invalid credentials" when the user is active and the password check fails, and
  otherwise 200 with the user's id, name and email and a token signed for them, and
  stores \<open>lastAccess = now\<close> for that user. The three failures leave the store as it is;
  the success changes no other user and no task.
\<close>

theorem login_outcomes:
  "((\<forall>u \<in> set (users s). u_email u \<noteq> l_email b) \<longrightarrow>
      login compare sign now s b
      = (\<lparr> status = 401, success = False, message = Some ''Invalid credentials'', data = None \<rparr>, s))
   \<and> (\<forall>u. User_findOne s (l_email b) = Some u \<longrightarrow>
        (\<not> u_active u \<longrightarrow>
           login compare sign now s b
           = (\<lparr> status = 403, success = False,
                message = Some ''User inactive. Contact administrator'', data = None \<rparr>, s))
      \<and> (u_active u \<and> \<not> compare (l_password b) (u_password u) \<longrightarrow>
           login compare sign now s b
           = (\<lparr> status = 401, success = False, message = Some ''Invalid credentials'',
                data = None \<rparr>, s))
      \<and> (u_active u \<and> compare (l_password b) (u_password u) \<longrightarrow>
           fst (login compare sign now s b)
           = \<lparr> status = 200, success = True, message = Some ''Session started successfully'',
               data = Some (\<lparr> pu_id = u_id u, pu_name = u_name u, pu_email = u_email u \<rparr>,
                            sign \<lparr> c_id = u_id u, c_email = u_email u, c_name = u_name u \<rparr>) \<rparr>
           \<and> map_option u_lastAccess (User_findByPk (snd (login compare sign now s b)) (u_id u))
               = Some (Some now)
           \<and> filter (\<lambda>r. u_id r \<noteq> u_id u) (users (snd (login compare sign now s b)))
               = filter (\<lambda>r. u_id r \<noteq> u_id u) (users s)
           \<and> tasks (snd (login compare sign now s b)) = tasks s))"
proof -
  have m: "User_findOne s (l_email b) = Some u \<Longrightarrow> u \<in> set (users s)" for u
    by (auto simp: User_findOne_def find_Some_iff)
  have o: "filter (\<lambda>r. u_id r \<noteq> i) (map (\<lambda>r. if u_id r = i then c else r) xs)
         = filter (\<lambda>r. u_id r \<noteq> i) xs" if "u_id c = i" for i c and xs :: "user list"
    using that by (induction xs) auto
  show ?thesis
    using User_findOne_None_iff[of s "l_email b"] 
    by (auto simp: login_def Let_def findByPk_save m) (simp_all add: save_user_def o)
qed

theorem login_outcomes_witness:
  "fst (login example_compare example_sign 99 example_store
          \<lparr> l_email = ''a@x.io'', l_password = ''Secret1'' \<rparr>)
     = \<lparr> status = 200, success = True, message = Some ''Session started successfully'',
         data = Some (\<lparr> pu_id = 1, pu_name = ''user'', pu_email = ''a@x.io'' \<rparr>,
                      ''a@x.io.signed'') \<rparr>
   \<and> map_option u_lastAccess
         (User_findByPk (snd (login example_compare example_sign 99 example_store
                                \<lparr> l_email = ''a@x.io'', l_password = ''Secret1'' \<rparr>)) 1)
       = Some (Some 99)
   \<and> login example_compare example_sign 99 example_store
         \<lparr> l_email = ''a@x.io'', l_password = ''Wrong1'' \<rparr>
       = (\<lparr> status = 401, success = False, message = Some ''Invalid credentials'',
            data = None \<rparr>, example_store)
   \<and> login example_compare example_sign 99 example_store
         \<lparr> l_email = ''b@x.io'', l_password = ''Secret2'' \<rparr>
       = (\<lparr> status = 403, success = False,
            message = Some ''User inactive. Contact administrator'', data = None \<rparr>,
          example_store)
   \<and> login example_compare example_sign 99 example_store
         \<lparr> l_email = ''c@x.io'', l_password = ''Secret3'' \<rparr>
       = (\<lparr> status = 401, success = False, message = Some ''Invalid credentials'',
            data = None \<rparr>, example_store)"
proof -
  have n: "\<forall>u \<in> set (users example_store). u_email u \<noteq> ''c@x.io''"
    by (simp add: example_store_def example_user_def)
  show ?thesis
    using login_outcomes[of example_store "\<lparr> l_email = ''a@x.io'', l_password = ''Secret1'' \<rparr>"
        example_compare example_sign 99]
      login_outcomes[of example_store "\<lparr> l_email = ''a@x.io'', l_password = ''Wrong1'' \<rparr>"
        example_compare example_sign 99]
      login_outcomes[of example_store "\<lparr> l_email = ''b@x.io'', l_password = ''Secret2'' \<rparr>"
        example_compare example_sign 99]
      login_outcomes[of example_store "\<lparr> l_email = ''c@x.io'', l_password = ''Secret3'' \<rparr>"
        example_compare example_sign 99] n
    by (simp add: example_findOne example_user_def example_compare_def example_hash_def
        example_sign_def)
qed

lemma find_distinct:
  assumes "distinct (map f xs)" "u \<in> set xs"
  shows "find (\<lambda>x. f x = f u) xs = Some u"
  using assms by (induction xs) (auto simp: rev_image_eqI)

text \<open>
  Claim C9. For a user with \<open>active = false\<close> in a store with unique e-mail addresses,
  \<open>login\<close> with that user's e-mail answers 403 whatever password is supplied and
  whatever the password check would say, and returns the store unchanged: the answer
  is never 401 and \<open>lastAccess\<close> is not written.
\<close>

theorem inactive_login_forbidden:
  assumes "u \<in> set (users s)" "\<not> u_active u" "distinct (map u_email (users s))"
    and "l_email b = u_email u"
  shows "login compare sign now s (b\<lparr> l_password := password \<rparr>)
         = (\<lparr> status = 403, success = False,
              message = Some ''User inactive. Contact administrator'', data = None \<rparr>, s)"
proof -
  have "User_findOne s (u_email u) = Some u"
    unfolding User_findOne_def using assms(3,1) by (rule find_distinct)
  then show ?thesis
    using assms(2,4) by (simp add: login_def)
qed

theorem inactive_login_forbidden_witness:
  "example_user 2 ''b@x.io'' ''#Secret2'' False \<in> set (users example_store)
   \<and> distinct (map u_email (users example_store))
   \<and> login example_compare example_sign 99 example_store
         \<lparr> l_email = ''b@x.io'', l_password = ''Secret2'' \<rparr>
       = (\<lparr> status = 403, success = False,
            message = Some ''User inactive. Contact administrator'', data = None \<rparr>,
          example_store)
   \<and> login example_compare example_sign 99 example_store
         \<lparr> l_email = ''b@x.io'', l_password = ''Wrong2'' \<rparr>
       = (\<lparr> status = 403, success = False,
            message = Some ''User inactive. Contact administrator'', data = None \<rparr>,
          example_store)"
proof -
  have m: "example_user 2 ''b@x.io'' ''#Secret2'' False \<in> set (users example_store)"
    by (simp add: example_store_def)
  have a: "\<not> u_active (example_user 2 ''b@x.io'' ''#Secret2'' False)"
    by (simp add: example_user_def)
  have d: "distinct (map u_email (users example_store))"
    by (simp add: example_store_def example_user_def)
  have e: "l_email \<lparr> l_email = ''b@x.io'', l_password = ''x'' \<rparr>
           = u_email (example_user 2 ''b@x.io'' ''#Secret2'' False)"
    by (simp add: example_user_def)
  show ?thesis
    using inactive_login_forbidden[OF m a d e, of example_compare example_sign 99 "''Secret2''"]
      inactive_login_forbidden[OF m a d e, of example_compare example_sign 99 "''Wrong2''"] m d
    by simp
qed

section \<open>Registration\<close>

text \<open>
  Claim C8. When some user already has the e-mail of the request, \<open>register\<close> answers
  400 "Email already registered" whatever the name and password are, and returns the
  store unchanged. When no user has it, \<open>register\<close> answers 201 with the new user's id,
  name and e-mail and a token signed for them, and appends a user whose stored
  password is the hash of the supplied one.
\<close>

theorem register_outcomes:
  "((\<exists>e \<in> set (users s). u_email e = r_email b) \<longrightarrow>
      register hash sign now s b
      = (\<lparr> status = 400, success = False, message = Some ''Email already registered'',
           data = None \<rparr>, s))
   \<and> ((\<forall>e \<in> set (users s). u_email e \<noteq> r_email b) \<longrightarrow>
      register hash sign now s b
      = (\<lparr> status = 201, success = True, message = Some ''User registered successfully'',
           data = Some (\<lparr> pu_id = next_user_id s, pu_name = r_name b, pu_email = r_email b \<rparr>,
                        sign \<lparr> c_id = next_user_id s, c_email = r_email b, c_name = r_name b \<rparr>) \<rparr>,
         s\<lparr> users := users s @ [\<lparr> u_id = next_user_id s, u_name = r_name b, u_email = r_email b,
                                  u_password = hash (r_password b), u_active = True,
                                  u_lastAccess = None, u_createdAt = now, u_updatedAt = now \<rparr>],
            next_user_id := next_user_id s + 1 \<rparr>))"
  using User_findOne_None_iff[of s "r_email b"]
  by (auto simp: register_def User_create_def Let_def split: option.splits)

theorem register_outcomes_witness:
  "register example_hash example_sign 99 example_store
     \<lparr> r_name = ''Ann'', r_email = ''a@x.io'', r_password = ''Fresh123'' \<rparr>
     = (\<lparr> status = 400, success = False, message = Some ''Email already registered'',
          data = None \<rparr>, example_store)
   \<and> fst (register example_hash example_sign 99 example_store
            \<lparr> r_name = ''Cleo'', r_email = ''c@x.io'', r_password = ''Fresh123'' \<rparr>)
       = \<lparr> status = 201, success = True, message = Some ''User registered successfully'',
           data = Some (\<lparr> pu_id = 3, pu_name = ''Cleo'', pu_email = ''c@x.io'' \<rparr>,
                        ''c@x.io.signed'') \<rparr>
   \<and> map u_password (users (snd (register example_hash example_sign 99 example_store
            \<lparr> r_name = ''Cleo'', r_email = ''c@x.io'', r_password = ''Fresh123'' \<rparr>)))
       = [''#Secret1'', ''#Secret2'', ''#Fresh123'']"
proof -
  have y: "\<exists>e \<in> set (users example_store). u_email e = ''a@x.io''"
    by (simp add: example_store_def example_user_def)
  have n: "\<forall>e \<in> set (users example_store). u_email e \<noteq> ''c@x.io''"
    by (simp add: example_store_def example_user_def)
  show ?thesis
    using register_outcomes[of example_store
        "\<lparr> r_name = ''Ann'', r_email = ''a@x.io'', r_password = ''Fresh123'' \<rparr>"
        example_hash example_sign 99]
      register_outcomes[of example_store
        "\<lparr> r_name = ''Cleo'', r_email = ''c@x.io'', r_password = ''Fresh123'' \<rparr>"
        example_hash example_sign 99] y n
    by (simp add: example_store_def example_user_def example_hash_def example_sign_def)
qed

section \<open>The password never leaves the store\<close>

lemma find_erased:
  assumes "map g xs = map g ys" "\<And>x. P x = Q (g x)"
  shows "map_option g (find P xs) = map_option g (find P ys)"
  using assms(1)
proof (induction xs arbitrary: ys)
  case Nil
  then show ?case by simp
next
  case (Cons x xs)
  then obtain y ys' where ys: "ys = y # ys'" "g x = g y" "map g xs = map g ys'"
    by (cases ys) auto
  with Cons.IH[of ys'] show ?case
    by (simp add: assms(2))
qed

lemma map_erased:
  assumes "map g xs = map g ys" "\<And>x. g (f1 x) = f' (g x)" "\<And>x. g (f2 x) = f' (g x)"
  shows "map g (map f1 xs) = map g (map f2 ys)"
proof -
  have a: "map g (map f1 zs) = map f' (map g zs)" for zs
    by (induction zs) (simp_all add: assms(2))
  have b: "map g (map f2 zs) = map f' (map g zs)" for zs
    by (induction zs) (simp_all add: assms(3))
  show ?thesis
    unfolding a b assms(1) ..
qed

lemma exclude_erased: "exclude_password (erase_password u) = exclude_password u"
  by (simp add: exclude_password_def erase_password_def)

lemma findByPk_erased:
  assumes "same_but_passwords s s'"
  shows "map_option erase_password (User_findByPk s i) = map_option erase_password (User_findByPk s' i)"
  unfolding User_findByPk_def
  by (rule find_erased[where Q = "\<lambda>u. u_id u = i"])
    (use assms in \<open>simp_all add: same_but_passwords_def erase_password_def\<close>)

lemma findOne_erased:
  assumes "same_but_passwords s s'"
  shows "map_option erase_password (User_findOne s e) = map_option erase_password (User_findOne s' e)"
  unfolding User_findOne_def
  by (rule find_erased[where Q = "\<lambda>u. u_email u = e"])
    (use assms in \<open>simp_all add: same_but_passwords_def erase_password_def\<close>)

lemma findByPk_view:
  assumes "same_but_passwords s s'"
  shows "map_option exclude_password (User_findByPk s i) = map_option exclude_password (User_findByPk s' i)"
proof -
  have "map_option exclude_password (map_option erase_password x) = map_option exclude_password x" for x
    by (cases x) (simp_all add: exclude_erased)
  with findByPk_erased[OF assms, of i] show ?thesis
    by metis
qed

lemma protectRoute_same:
  assumes "same_but_passwords s s'"
  shows "protectRoute verify s h = protectRoute verify s' h"
proof -
  have "(case User_findByPk s i of None \<Rightarrow> Inl r | Some u \<Rightarrow> Inr (exclude_password u))
      = (case User_findByPk s' i of None \<Rightarrow> Inl r | Some u \<Rightarrow> Inr (exclude_password u))"
    for i and r :: "'a response"
    using findByPk_view[OF assms, of i]
    by (cases "User_findByPk s i"; cases "User_findByPk s' i") simp_all
  then show ?thesis
    by (simp add: protectRoute_def split: option.splits sum.splits jwt_error.splits)
qed

lemma User_update_same:
  assumes "same_but_passwords s s'"
  shows "same_but_passwords (User_update name i now s) (User_update name i now s')"
proof (cases name)
  case None
  with assms show ?thesis
    by (simp add: User_update_def)
next
  case (Some n)
  let ?f = "\<lambda>r. if u_id r = i then r\<lparr> u_name := n, u_updatedAt := now \<rparr> else r"
  have c: "erase_password (?f x) = ?f (erase_password x)" for x
    by (simp add: erase_password_def)
  have "map erase_password (map ?f (users s)) = map erase_password (map ?f (users s'))"
    using assms c by (intro map_erased[where f' = ?f]) (simp_all add: same_but_passwords_def)
  with assms Some show ?thesis
    by (simp add: same_but_passwords_def User_update_def)
qed

lemma updateProfile_same:
  assumes "same_but_passwords s s'"
  shows "fst (updateProfile now s req_user name) = fst (updateProfile now s' req_user name)
       \<and> same_but_passwords (snd (updateProfile now s req_user name))
            (snd (updateProfile now s' req_user name))"
  using User_update_same[OF assms, of name "v_id req_user" now]
  by (simp add: updateProfile_def Let_def findByPk_view)

lemma register_same:
  assumes "same_but_passwords s s'"
  shows "fst (register hash sign now s b) = fst (register hash sign now s' (b\<lparr> r_password := pw' \<rparr>))
       \<and> same_but_passwords (snd (register hash sign now s b))
            (snd (register hash sign now s' (b\<lparr> r_password := pw' \<rparr>)))"
proof -
  have n: "(User_findOne s (r_email b) = None) = (User_findOne s' (r_email b) = None)"
    using findOne_erased[OF assms, of "r_email b"] by (metis map_option_is_None)
  show ?thesis
    using assms n
    by (auto simp: register_def User_create_def Let_def same_but_passwords_def erase_password_def
        split: option.splits)
qed

lemma erase_eq_fields:
  assumes "erase_password u = erase_password v"
  shows "u_id u = u_id v" "u_name u = u_name v" "u_email u = u_email v" "u_active u = u_active v"
  using arg_cong[OF assms, of u_id] arg_cong[OF assms, of u_name] arg_cong[OF assms, of u_email]
    arg_cong[OF assms, of u_active]
  by (simp_all add: erase_password_def)

lemma erase_touch:
  assumes "erase_password u = erase_password v"
  shows "erase_password (u\<lparr> u_lastAccess := a, u_updatedAt := n \<rparr>)
       = erase_password (v\<lparr> u_lastAccess := a, u_updatedAt := n \<rparr>)"
proof -
  have "erase_password (w\<lparr> u_lastAccess := a, u_updatedAt := n \<rparr>)
      = (erase_password w)\<lparr> u_lastAccess := a, u_updatedAt := n \<rparr>" for w
    by (simp add: erase_password_def)
  with assms show ?thesis by simp
qed

lemma save_user_same:
  assumes "same_but_passwords s s'" "erase_password u = erase_password v"
  shows "same_but_passwords (save_user u s) (save_user v s')"
proof -
  let ?f' = "\<lambda>r. if u_id r = u_id u then erase_password u else r"
  have c1: "erase_password (if u_id x = u_id u then u else x) = ?f' (erase_password x)" for x
    by (simp add: erase_password_def)
  have c2: "erase_password (if u_id x = u_id v then v else x) = ?f' (erase_password x)" for x
    using assms(2) erase_eq_fields(1)[OF assms(2)] by (simp add: erase_password_def)
  have "map erase_password (map (\<lambda>r. if u_id r = u_id u then u else r) (users s))
      = map erase_password (map (\<lambda>r. if u_id r = u_id v then v else r) (users s'))"
    using assms(1) c1 c2 by (intro map_erased[where f' = ?f']) (simp_all add: same_but_passwords_def)
  with assms(1) show ?thesis
    by (simp add: same_but_passwords_def save_user_def)
qed

lemma login_same:
  assumes "same_but_passwords s s'"
    and "status (fst (login compare sign now s b))
         = status (fst (login compare sign now s' (b\<lparr> l_password := pw' \<rparr>)))"
  shows "fst (login compare sign now s b) = fst (login compare sign now s' (b\<lparr> l_password := pw' \<rparr>))
       \<and> same_but_passwords (snd (login compare sign now s b))
            (snd (login compare sign now s' (b\<lparr> l_password := pw' \<rparr>)))"
proof (cases "User_findOne s (l_email b)")
  case None
  then have "User_findOne s' (l_email b) = None"
    using findOne_erased[OF assms(1), of "l_email b"] by simp
  with None assms(1) show ?thesis
    by (simp add: login_def)
next
  case (Some u)
  then obtain v where v: "User_findOne s' (l_email b) = Some v" "erase_password u = erase_password v"
    using findOne_erased[OF assms(1), of "l_email b"] by (cases "User_findOne s' (l_email b)") auto
  note e = erase_eq_fields[OF v(2)]
  show ?thesis
  proof (cases "u_active u")
    case False
    with Some v(1) e(4) assms(1) show ?thesis
      by (simp add: login_def)
  next
    case True
    then have av: "u_active v"
      using e(4) by simp
    show ?thesis
    proof (cases "compare (l_password b) (u_password u)")
      case cu: False
      show ?thesis
      proof (cases "compare pw' (u_password v)")
        case False
        with cu Some v(1) True av assms(1) show ?thesis
          by (simp add: login_def)
      next
        case cv: True
        with cu Some v(1) True av assms(2) show ?thesis
          by (simp add: login_def Let_def)
      qed
    next
      case cu: True
      show ?thesis
      proof (cases "compare pw' (u_password v)")
        case False
        with cu Some v(1) True av assms(2) show ?thesis
          by (simp add: login_def Let_def)
      next
        case cv: True
        have "same_but_passwords (save_user (u\<lparr> u_lastAccess := Some now, u_updatedAt := now \<rparr>) s)
                (save_user (v\<lparr> u_lastAccess := Some now, u_updatedAt := now \<rparr>) s')"
          using assms(1) erase_touch[OF v(2)] by (rule save_user_same)
        with cu cv Some v(1) True av e show ?thesis
          by (simp add: login_def Let_def)
      qed
    qed
  qed
qed

lemma example_same: "same_but_passwords example_store other_hash_store"
  by (simp add: same_but_passwords_def other_hash_store_def example_store_def
      erase_password_def example_user_def)

text \<open>
  Claim C2, as amended. No answer carries the raw password or the stored hash: take
  two stores that differ at most in stored password hashes. The guard,
  \<open>GET /api/auth/profile\<close> and \<open>updateProfile\<close> give identical results on both.
  \<open>register\<close> gives identical answers on both, also when the two requests carry
  different raw passwords. \<open>login\<close> gives identical answers on both, also when the two
  requests carry different raw passwords, whenever it returns the same status in both:
  the password and the hash decide whether a login is accepted and nothing else of
  the answer. The stores stay equal up to password hashes.
\<close>

theorem password_noninterference:
  assumes "same_but_passwords s s'"
  shows "(protectRoute verify s h :: unit response + user_view) = protectRoute verify s' h
       \<and> get_profile verify s h = get_profile verify s' h
       \<and> fst (updateProfile now s req_user name) = fst (updateProfile now s' req_user name)
       \<and> same_but_passwords (snd (updateProfile now s req_user name))
            (snd (updateProfile now s' req_user name))
       \<and> fst (register hash sign now s rb)
           = fst (register hash sign now s' (rb\<lparr> r_password := pw' \<rparr>))
       \<and> same_but_passwords (snd (register hash sign now s rb))
            (snd (register hash sign now s' (rb\<lparr> r_password := pw' \<rparr>)))
       \<and> (status (fst (login compare sign now s lb))
            = status (fst (login compare sign now s' (lb\<lparr> l_password := lpw' \<rparr>)))
            \<longrightarrow> fst (login compare sign now s lb)
                 = fst (login compare sign now s' (lb\<lparr> l_password := lpw' \<rparr>))
                \<and> same_but_passwords (snd (login compare sign now s lb))
                     (snd (login compare sign now s' (lb\<lparr> l_password := lpw' \<rparr>))))"
proof -
  have g: "get_profile verify s h = get_profile verify s' h"
    unfolding get_profile_def protectRoute_same[OF assms, of verify h] ..
  show ?thesis
    using protectRoute_same[OF assms] g updateProfile_same[OF assms] register_same[OF assms]
      login_same[OF assms]
    by blast
qed

theorem password_noninterference_witness:
  "same_but_passwords example_store other_hash_store
   \<and> get_profile example_verify example_store (Some ''Bearer a@x.io.signed'')
       = get_profile example_verify other_hash_store (Some ''Bearer a@x.io.signed'')
   \<and> data (get_profile example_verify example_store (Some ''Bearer a@x.io.signed''))
       = Some \<lparr> v_id = 1, v_name = ''user'', v_email = ''a@x.io'', v_active = True,
                v_lastAccess = None, v_createdAt = 0, v_updatedAt = 0 \<rparr>
   \<and> fst (updateProfile 99 example_store
            \<lparr> v_id = 1, v_name = ''user'', v_email = ''a@x.io'', v_active = True,
              v_lastAccess = None, v_createdAt = 0, v_updatedAt = 0 \<rparr> (Some ''Ann''))
       = fst (updateProfile 99 other_hash_store
            \<lparr> v_id = 1, v_name = ''user'', v_email = ''a@x.io'', v_active = True,
              v_lastAccess = None, v_createdAt = 0, v_updatedAt = 0 \<rparr> (Some ''Ann''))
   \<and> data (fst (updateProfile 99 example_store
            \<lparr> v_id = 1, v_name = ''user'', v_email = ''a@x.io'', v_active = True,
              v_lastAccess = None, v_createdAt = 0, v_updatedAt = 0 \<rparr> (Some ''Ann'')))
       = Some (Some \<lparr> v_id = 1, v_name = ''Ann'', v_email = ''a@x.io'', v_active = True,
                      v_lastAccess = None, v_createdAt = 0, v_updatedAt = 99 \<rparr>)
   \<and> fst (register example_hash example_sign 99 example_store
            \<lparr> r_name = ''Cleo'', r_email = ''c@x.io'', r_password = ''Fresh123'' \<rparr>)
       = fst (register example_hash example_sign 99 other_hash_store
            \<lparr> r_name = ''Cleo'', r_email = ''c@x.io'', r_password = ''Other456'' \<rparr>)
   \<and> status (fst (login example_compare example_sign 99 example_store
                    \<lparr> l_email = ''a@x.io'', l_password = ''Secret1'' \<rparr>)) = 200
   \<and> status (fst (login example_compare example_sign 99 other_hash_store
                    \<lparr> l_email = ''a@x.io'', l_password = ''Changed9'' \<rparr>)) = 200
   \<and> fst (login example_compare example_sign 99 example_store
            \<lparr> l_email = ''a@x.io'', l_password = ''Secret1'' \<rparr>)
       = fst (login example_compare example_sign 99 other_hash_store
            \<lparr> l_email = ''a@x.io'', l_password = ''Changed9'' \<rparr>)
   \<and> data (fst (login example_compare example_sign 99 other_hash_store
                  \<lparr> l_email = ''a@x.io'', l_password = ''Changed9'' \<rparr>))
       = Some (\<lparr> pu_id = 1, pu_name = ''user'', pu_email = ''a@x.io'' \<rparr>, ''a@x.io.signed'')
   \<and> status (fst (login example_compare example_sign 99 example_store
                    \<lparr> l_email = ''a@x.io'', l_password = ''Wrong1'' \<rparr>)) = 401
   \<and> status (fst (login example_compare example_sign 99 other_hash_store
                    \<lparr> l_email = ''a@x.io'', l_password = ''Wrong2'' \<rparr>)) = 401
   \<and> fst (login example_compare example_sign 99 example_store
            \<lparr> l_email = ''a@x.io'', l_password = ''Wrong1'' \<rparr>)
       = fst (login example_compare example_sign 99 other_hash_store
            \<lparr> l_email = ''a@x.io'', l_password = ''Wrong2'' \<rparr>)"
proof -
  let ?view = "\<lparr> v_id = 1, v_name = ''user'', v_email = ''a@x.io'', v_active = True,
                v_lastAccess = None, v_createdAt = 0, v_updatedAt = 0 \<rparr>"
  have ok: "status (fst (login example_compare example_sign 99 example_store
                    \<lparr> l_email = ''a@x.io'', l_password = ''Secret1'' \<rparr>)) = 200"
    "status (fst (login example_compare example_sign 99 other_hash_store
                    \<lparr> l_email = ''a@x.io'', l_password = ''Changed9'' \<rparr>)) = 200"
    "data (fst (login example_compare example_sign 99 other_hash_store
                  \<lparr> l_email = ''a@x.io'', l_password = ''Changed9'' \<rparr>))
       = Some (\<lparr> pu_id = 1, pu_name = ''user'', pu_email = ''a@x.io'' \<rparr>, ''a@x.io.signed'')"
    by (simp_all add: login_def Let_def User_findOne_def example_store_def other_hash_store_def
        example_user_def example_compare_def example_hash_def example_sign_def)
  have no: "status (fst (login example_compare example_sign 99 example_store
                    \<lparr> l_email = ''a@x.io'', l_password = ''Wrong1'' \<rparr>)) = 401"
    "status (fst (login example_compare example_sign 99 other_hash_store
                    \<lparr> l_email = ''a@x.io'', l_password = ''Wrong2'' \<rparr>)) = 401"
    by (simp_all add: login_def User_findOne_def example_store_def other_hash_store_def
        example_user_def example_compare_def example_hash_def)
  have d: "data (get_profile example_verify example_store (Some ''Bearer a@x.io.signed''))
       = Some ?view"
    by (simp add: get_profile_def protectRoute_def example_verify_def User_findByPk_def
        example_store_def example_user_def exclude_password_def profile_def)
  have u: "data (fst (updateProfile 99 example_store ?view (Some ''Ann'')))
       = Some (Some \<lparr> v_id = 1, v_name = ''Ann'', v_email = ''a@x.io'', v_active = True,
                      v_lastAccess = None, v_createdAt = 0, v_updatedAt = 99 \<rparr>)"
    by (simp add: updateProfile_def Let_def User_update_def User_findByPk_def
        example_store_def example_user_def exclude_password_def)
  note w = password_noninterference[OF example_same, where verify = example_verify
        and h = "Some ''Bearer a@x.io.signed''" and hash = example_hash and sign = example_sign
        and now = 99 and compare = example_compare and req_user = ?view and name = "Some ''Ann''"
        and rb = "\<lparr> r_name = ''Cleo'', r_email = ''c@x.io'', r_password = ''Fresh123'' \<rparr>"
        and pw' = "''Other456''"]
  show ?thesis
    using w[where lb = "\<lparr> l_email = ''a@x.io'', l_password = ''Secret1'' \<rparr>"
        and lpw' = "''Changed9''"]
      w[where lb = "\<lparr> l_email = ''a@x.io'', l_password = ''Wrong1'' \<rparr>"
        and lpw' = "''Wrong2''"]
      example_same ok no d u
    by simp
qed

text \<open>
  Claim C2 as stated lists the \<open>login\<close> answer among the paths on which two stores that
  differ only in a stored hash answer identically. They do not: with the hash stored
  for \<open>Secret1\<close> the login below succeeds, with another hash it is refused.
\<close>

theorem login_depends_on_hash:
  "same_but_passwords example_store other_hash_store
   \<and> status (fst (login example_compare example_sign 99 example_store
                    \<lparr> l_email = ''a@x.io'', l_password = ''Secret1'' \<rparr>)) = 200
   \<and> status (fst (login example_compare example_sign 99 other_hash_store
                    \<lparr> l_email = ''a@x.io'', l_password = ''Secret1'' \<rparr>)) = 401
   \<and> fst (login example_compare example_sign 99 example_store
            \<lparr> l_email = ''a@x.io'', l_password = ''Secret1'' \<rparr>)
       \<noteq> fst (login example_compare example_sign 99 other_hash_store
            \<lparr> l_email = ''a@x.io'', l_password = ''Secret1'' \<rparr>)"
  using example_same
  by (simp add: login_def Let_def User_findOne_def example_store_def other_hash_store_def
      example_user_def example_compare_def example_hash_def)

end
